theory Spec2Isabelle
  imports Complex_Main "HOL-Library.AList" "HOL-Library.Option_ord"
begin

section \<open>DataSpy: the monitoring core of \<^verbatim>\<open>src/src/core.py\<close>\<close>

text \<open>
  The theory embeds \<^verbatim>\<open>DataSpyCore\<close>: the task registry, one check of one task
  (\<^verbatim>\<open>check_task\<close>), the three writes it performs, the monitoring loop
  (\<^verbatim>\<open>run_monitor\<close>) and the event query (\<^verbatim>\<open>get_events\<close>).

  Conventions of the embedding.
  \<^item> A \<^verbatim>\<open>datetime\<close> is an integer number of microseconds (the resolution of
    Python's \<^verbatim>\<open>datetime\<close>); a \<^verbatim>\<open>timedelta\<close> is their difference, and
    \<^verbatim>\<open>total_seconds()\<close> is the exact quotient by \<open>10\<^sup>6\<close>. The ISO text written to
    the database and parsed back by \<^verbatim>\<open>fromisoformat\<close> is identified with the
    \<^verbatim>\<open>datetime\<close> it denotes.
  \<^item> \<^verbatim>\<open>hashlib.sha256(content.encode()).hexdigest()\<close> is a library call: it is the
    parameter \<open>H\<close> of every function that hashes.
  \<^item> What the outside world does during one visit of one task (the HTTP answer, the
    clock readings, whether a write fails) is a record \<open>world\<close> given to the function.
  \<^item> Every method returns an \<open>outcome\<close> (\<open>Returned v\<close> or \<open>Raised e\<close>) together with
    the state it leaves behind: what was written before an exception stays written.
\<close>

subsection \<open>Data model\<close>

type_synonym datetime = int

datatype ChangeType =
  CONTENT_CHANGED | PRICE_DROPPED | PRICE_ROSE | AVAILABLE | UNAVAILABLE | NEW_ELEMENT

text \<open>\<^verbatim>\<open>MonitorTask.id\<close> is \<open>id_task\<close>, \<^verbatim>\<open>ChangeEvent.id\<close> is \<open>id_event\<close>.\<close>

record MonitorTask =
  id_task :: string
  name :: string
  url :: string
  check_type :: string
  selector :: "string option"
  json_path :: "string option"
  check_interval :: int
  last_check :: "datetime option"
  last_content_hash :: "string option"
  last_value :: "string option"
  enabled :: bool
  created_at :: datetime

record ChangeEvent =
  id_event :: string
  task_id :: string
  timestamp :: datetime
  change_type :: ChangeType
  old_value :: "string option"
  new_value :: "string option"
  screenshot_path :: "string option"
  diff_summary :: string

text \<open>A row of the table \<^verbatim>\<open>snapshots\<close>; its timestamp is the database's default.\<close>

record Snapshot =
  id_snapshot :: string
  snapshot_task_id :: string
  snapshot_timestamp :: datetime
  content_hash :: string
  content_path :: string

datatype error =
  RequestException | OSError | OperationalError | IntegrityError | OverflowError | ValueError

datatype 'a outcome = Returned 'a | Raised error

text \<open>The lines \<^verbatim>\<open>print\<close> writes, by their format string.\<close>

datatype printed =
  MonitorStarted int
  | ErrorChecking string error
  | ChangeDetected string string
  | NoChange string

text \<open>
  The state: \<open>tasks\<close> is \<^verbatim>\<open>self.tasks\<close> (a dict, in insertion order); \<open>db_tasks\<close>,
  \<open>db_events\<close> and \<open>db_snapshots\<close> are the three tables of \<^verbatim>\<open>dataspy.db\<close> in row
  order; \<open>files\<close> are the snapshot files by path; \<open>requests_log\<close> lists the URLs passed
  to \<^verbatim>\<open>requests.get\<close>; \<open>console\<close> is the standard output. Each key of the registry
  holds a task of its own, as \<^verbatim>\<open>load_tasks\<close> builds them: one object stored under two
  keys is not modelled. A row of \<open>db_events\<close> is a \<open>ChangeEvent\<close> without screenshot path.
\<close>

record state =
  tasks :: "(string \<times> MonitorTask) list"
  db_tasks :: "MonitorTask list"
  db_events :: "ChangeEvent list"
  db_snapshots :: "Snapshot list"
  files :: "(string \<times> string) list"
  requests_log :: "string list"
  console :: "printed list"

text \<open>
  The world during one visit of one task. \<open>fetch\<close> is what lines 181-185 deliver:
  \<open>Inl e\<close> when \<^verbatim>\<open>requests.get\<close> or \<^verbatim>\<open>raise_for_status\<close> raises (transport failure,
  timeout, error status), \<open>Inr text\<close> for \<^verbatim>\<open>response.text\<close>. The clock readings:
  \<open>time_event\<close> and \<open>time_snapshot\<close> are the values of
  \<^verbatim>\<open>int(time.time())\<close> in lines 194 and 227, \<open>now_event\<close> and \<open>now_last_check\<close> those of
  \<^verbatim>\<open>datetime.now()\<close> in lines 196 and 208 or 217, \<open>now_monitor\<close> that of line 284, and
  \<open>now_database\<close> is the database's \<^verbatim>\<open>CURRENT_TIMESTAMP\<close>. A write fails when its flag
  is set (a locked database, a full disk) or when the primary key is taken.
\<close>

record world =
  now_monitor :: datetime
  fetch :: "error + string"
  time_event :: int
  now_event :: datetime
  time_snapshot :: int
  now_database :: datetime
  now_last_check :: datetime
  write_text_fails :: bool
  snapshot_insert_fails :: bool
  task_update_fails :: bool
  event_insert_fails :: bool

subsection \<open>Python's \<^verbatim>\<open>str\<close> of an integer, truthiness, \<^verbatim>\<open>total_seconds\<close>\<close>

definition digit :: "nat \<Rightarrow> char" where
  "digit d = ''0123456789'' ! d"

fun str_nat :: "nat \<Rightarrow> string" where
  "str_nat n =
     (if n < 10 then [digit n]
      else str_nat (n div 10) @ [digit (n mod 10)])"

declare str_nat.simps [simp del]

definition str_int :: "int \<Rightarrow> string" where
  "str_int i = (if i < 0 then CHR ''-'' # str_nat (nat (- i)) else str_nat (nat i))"

text \<open>\<^verbatim>\<open>if s:\<close> for an optional string: neither \<^verbatim>\<open>None\<close> nor empty.\<close>

definition truthy :: "string option \<Rightarrow> bool" where
  "truthy s = (case s of None \<Rightarrow> False | Some v \<Rightarrow> v \<noteq> [])"


text \<open>\<^verbatim>\<open>DATA_DIR\<close>, with \<open>~\<close> for \<^verbatim>\<open>Path.home()\<close>.\<close>

definition DATA_DIR :: string where
  "DATA_DIR = ''~/.local/share/dataspy''"

subsection \<open>The three writes of a check\<close>

definition snapshot_id_of :: "world \<Rightarrow> string \<Rightarrow> string" where
  "snapshot_id_of w tid = ''snap_'' @ str_int (time_snapshot w) @ ''_'' @ tid"

definition snapshot_path_of :: "world \<Rightarrow> string \<Rightarrow> string" where
  "snapshot_path_of w tid = DATA_DIR @ ''/snapshots/'' @ snapshot_id_of w tid @ ''.html''"

text \<open>The row of lines 234-237; the database fills in the timestamp.\<close>

definition snapshot_row :: "world \<Rightarrow> string \<Rightarrow> string \<Rightarrow> Snapshot" where
  "snapshot_row w tid chash =
     \<lparr>id_snapshot = snapshot_id_of w tid, snapshot_task_id = tid,
      snapshot_timestamp = now_database w, content_hash = chash,
      content_path = snapshot_path_of w tid\<rparr>"

text \<open>
  \<^verbatim>\<open>_save_snapshot\<close>: the file is written first, then the row is inserted and
  committed on a connection of its own.
\<close>

definition save_snapshot ::
  "world \<Rightarrow> string \<Rightarrow> string \<Rightarrow> string \<Rightarrow> state \<Rightarrow> unit outcome \<times> state" where
  "save_snapshot w tid content chash st =
     (if write_text_fails w then (Raised OSError, st)
      else
        let st1 = st\<lparr>files := AList.update (snapshot_path_of w tid) content (files st)\<rparr> in
        if snapshot_insert_fails w then (Raised OperationalError, st1)
        else if snapshot_id_of w tid \<in> id_snapshot ` set (db_snapshots st1)
        then (Raised IntegrityError, st1)
        else (Returned (),
              st1\<lparr>db_snapshots := db_snapshots st1 @ [snapshot_row w tid chash]\<rparr>))"

text \<open>
  The \<^verbatim>\<open>UPDATE\<close> of lines 261-270 on the table: three columns of the rows whose id
  is the task's; no row, no change, no error.
\<close>

definition updated_rows :: "MonitorTask \<Rightarrow> MonitorTask list \<Rightarrow> MonitorTask list" where
  "updated_rows task rows =
     map (\<lambda>row.
       if id_task row = id_task task
       then row\<lparr>last_check := last_check task,
                last_content_hash := last_content_hash task,
                last_value := last_value task\<rparr>
       else row) rows"

text \<open>\<^verbatim>\<open>_update_task_in_db\<close>, committed on a connection of its own.\<close>

definition update_task_in_db :: "world \<Rightarrow> MonitorTask \<Rightarrow> state \<Rightarrow> unit outcome \<times> state" where
  "update_task_in_db w task st =
     (if task_update_fails w then (Raised OperationalError, st)
      else (Returned (), st\<lparr>db_tasks := updated_rows task (db_tasks st)\<rparr>))"

text \<open>
  \<^verbatim>\<open>_save_event\<close>: an \<^verbatim>\<open>INSERT\<close> of seven columns; the table has no column for
  \<^verbatim>\<open>screenshot_path\<close>. The id is the primary key; the foreign key on the task id is
  one SQLite does not enforce unless asked to, and the code does not ask.
\<close>

definition save_event :: "world \<Rightarrow> ChangeEvent \<Rightarrow> state \<Rightarrow> unit outcome \<times> state" where
  "save_event w event st =
     (if event_insert_fails w then (Raised OperationalError, st)
      else if id_event event \<in> id_event ` set (db_events st) then (Raised IntegrityError, st)
      else (Returned (), st\<lparr>db_events := db_events st @ [event\<lparr>screenshot_path := None\<rparr>]\<rparr>))"

subsection \<open>\<^verbatim>\<open>check_task\<close>\<close>

text \<open>The event of lines 193-201.\<close>

definition event_id_of :: "world \<Rightarrow> string \<Rightarrow> string" where
  "event_id_of w tid = ''evt_'' @ str_int (time_event w) @ ''_'' @ tid"

definition new_event ::
  "world \<Rightarrow> string \<Rightarrow> string \<Rightarrow> string \<Rightarrow> string \<Rightarrow> ChangeEvent" where
  "new_event w tid old_hash content chash =
     \<lparr>id_event = event_id_of w tid,
      task_id = tid,
      timestamp = now_event w,
      change_type = CONTENT_CHANGED,
      old_value = Some (take 16 old_hash @ ''...''),
      new_value = Some (take 16 chash @ ''...''),
      screenshot_path = None,
      diff_summary = ''Content changed ('' @ str_int (int (length content)) @ '' bytes)''\<rparr>"

text \<open>The condition of line 191, for the fetched \<open>content\<close>.\<close>

definition hash_differs :: "(string \<Rightarrow> string) \<Rightarrow> MonitorTask \<Rightarrow> string \<Rightarrow> bool" where
  "hash_differs H task content =
     (truthy (last_content_hash task) \<and> last_content_hash task \<noteq> Some (H content))"

text \<open>
  The body of the \<^verbatim>\<open>try\<close> (lines 180-219). The task object is mutated in place,
  so the registry entry changes at the assignment, before the row is written.
\<close>

definition check_task_try ::
  "(string \<Rightarrow> string) \<Rightarrow> world \<Rightarrow> string \<Rightarrow> MonitorTask \<Rightarrow> state
     \<Rightarrow> ChangeEvent option outcome \<times> state" where
  "check_task_try H w tid task st =
     (let st0 = st\<lparr>requests_log := requests_log st @ [url task]\<rparr> in
      case fetch w of
        Inl e \<Rightarrow> (Raised e, st0)
      | Inr content \<Rightarrow>
          let chash = H content in
          if hash_differs H task content
          then
            let event = new_event w tid (the (last_content_hash task)) content chash in
            (case save_snapshot w tid content chash st0 of
               (Raised e, st1) \<Rightarrow> (Raised e, st1)
             | (Returned _, st1) \<Rightarrow>
                 let task' = task\<lparr>last_content_hash := Some chash,
                                  last_check := Some (now_last_check w)\<rparr>;
                     st2 = st1\<lparr>tasks := AList.update tid task' (tasks st1)\<rparr> in
                 (case update_task_in_db w task' st2 of
                    (Raised e, st3) \<Rightarrow> (Raised e, st3)
                  | (Returned _, st3) \<Rightarrow>
                      (case save_event w event st3 of
                         (Raised e, st4) \<Rightarrow> (Raised e, st4)
                       | (Returned _, st4) \<Rightarrow> (Returned (Some event), st4))))
          else
            let task' = task\<lparr>last_check := Some (now_last_check w)\<rparr>;
                st1 = st0\<lparr>tasks := AList.update tid task' (tasks st0)\<rparr> in
            (case update_task_in_db w task' st1 of
               (Raised e, st2) \<Rightarrow> (Raised e, st2)
             | (Returned _, st2) \<Rightarrow> (Returned None, st2)))"

text \<open>
  \<^verbatim>\<open>check_task\<close>: the guard of lines 175-177, the \<^verbatim>\<open>try\<close>, and the handler of
  lines 221-223, which prints and returns \<^verbatim>\<open>None\<close>.
\<close>

definition check_task ::
  "(string \<Rightarrow> string) \<Rightarrow> world \<Rightarrow> string \<Rightarrow> state \<Rightarrow> ChangeEvent option outcome \<times> state" where
  "check_task H w tid st =
     (case map_of (tasks st) tid of
        None \<Rightarrow> (Returned None, st)
      | Some task \<Rightarrow>
          if \<not> enabled task then (Returned None, st)
          else
            (case check_task_try H w tid task st of
               (Raised e, st1) \<Rightarrow>
                 (Returned None, st1\<lparr>console := console st1 @ [ErrorChecking tid e]\<rparr>)
             | (Returned r, st1) \<Rightarrow> (Returned r, st1)))"

subsection \<open>\<^verbatim>\<open>run_monitor\<close>\<close>





subsection \<open>\<^verbatim>\<open>add_task\<close> and \<^verbatim>\<open>get_events\<close>\<close>

text \<open>
  \<^verbatim>\<open>add_task\<close>: \<^verbatim>\<open>INSERT OR REPLACE\<close> of nine columns (the three \<^verbatim>\<open>last_\<close>
  columns take their default, \<^verbatim>\<open>NULL\<close>), then the dict entry. \<open>fails\<close> says whether
  the database refuses the write.
\<close>

definition add_task :: "bool \<Rightarrow> MonitorTask \<Rightarrow> state \<Rightarrow> (bool \<times> string) outcome \<times> state" where
  "add_task fails task st =
     (if fails then (Raised OperationalError, st)
      else (Returned (True, id_task task),
            st\<lparr>db_tasks := filter (\<lambda>row. id_task row \<noteq> id_task task) (db_tasks st) @
                   [task\<lparr>last_check := None, last_content_hash := None, last_value := None\<rparr>],
               tasks := AList.update (id_task task) task (tasks st)\<rparr>))"

text \<open>
  \<^verbatim>\<open>ORDER BY timestamp DESC\<close>: SQL leaves the order of rows with equal timestamps
  open; here they keep their row order. \<^verbatim>\<open>LIMIT n\<close>: SQLite reads a negative \<open>n\<close> as
  no limit.
\<close>

definition order_by_timestamp_desc :: "ChangeEvent list \<Rightarrow> ChangeEvent list" where
  "order_by_timestamp_desc rows = sort_key (\<lambda>e. - timestamp e) rows"

definition sql_limit :: "int \<Rightarrow> 'a list \<Rightarrow> 'a list" where
  "sql_limit n rows = (if n < 0 then rows else take (nat n) rows)"

text \<open>
  \<^verbatim>\<open>get_events\<close> on a database that answers. \<^verbatim>\<open>if task_id:\<close> takes the second
  query for \<^verbatim>\<open>None\<close> and for the empty string; a limit outside SQLite's 64-bit
  integers cannot be bound to the query.
\<close>

definition get_events :: "string option \<Rightarrow> int \<Rightarrow> state \<Rightarrow> ChangeEvent list outcome" where
  "get_events tid limit st =
     (if limit < - (2 ^ 63) \<or> 2 ^ 63 \<le> limit then Raised OverflowError
      else if truthy tid
      then Returned (sql_limit limit (order_by_timestamp_desc
             (filter (\<lambda>e. task_id e = the tid) (db_events st))))
      else Returned (sql_limit limit (order_by_timestamp_desc (db_events st))))"

subsection \<open>When a write goes through\<close>

definition snapshot_saves :: "world \<Rightarrow> string \<Rightarrow> state \<Rightarrow> bool" where
  "snapshot_saves w tid st =
     (\<not> write_text_fails w \<and> \<not> snapshot_insert_fails w \<and>
      snapshot_id_of w tid \<notin> id_snapshot ` set (db_snapshots st))"

definition event_saves :: "world \<Rightarrow> string \<Rightarrow> state \<Rightarrow> bool" where
  "event_saves w tid st =
     (\<not> event_insert_fails w \<and> event_id_of w tid \<notin> id_event ` set (db_events st))"

subsection \<open>When a task is due, in the words of the specification\<close>


subsection \<open>Example data\<close>

text \<open>
  The task of the script's \<^verbatim>\<open>__main__\<close>; a core on an empty database; a world in
  which the page is fetched and every write goes through; and a stand-in for the digest
  in concrete runs (injective and never empty, as far as the runs below need it).
\<close>

definition test_task :: MonitorTask where
  "test_task =
     \<lparr>id_task = ''test_hn'', name = ''Hacker News Top'',
      url = ''https://news.ycombinator.com'', check_type = ''full_page'',
      selector = None, json_path = None, check_interval = 300,
      last_check = None, last_content_hash = None, last_value = None,
      enabled = True, created_at = 1000000\<rparr>"

definition empty_core :: state where
  "empty_core =
     \<lparr>tasks = [], db_tasks = [], db_events = [], db_snapshots = [], files = [],
      requests_log = [], console = []\<rparr>"

definition calm :: world where
  "calm =
     \<lparr>now_monitor = 2000000, fetch = Inr ''<html>v1</html>'',
      time_event = 2, now_event = 2000001, time_snapshot = 2, now_database = 2000002,
      now_last_check = 2000003, write_text_fails = False, snapshot_insert_fails = False,
      task_update_fails = False, event_insert_fails = False\<rparr>"

definition digest :: "string \<Rightarrow> string" where
  "digest content = ''H('' @ content @ '')''"

text \<open>
  A second task, watching a price, that has been checked before: it holds the digest of
  the page it saw then. \<open>registry\<close> is the core after \<^verbatim>\<open>add_task\<close> of both tasks.
\<close>

definition price_task :: MonitorTask where
  "price_task =
     \<lparr>id_task = ''price'', name = ''Price of a book'',
      url = ''https://shop.example/book'', check_type = ''price'',
      selector = Some ''.price'', json_path = None, check_interval = 3600,
      last_check = Some 1500000, last_content_hash = Some (digest ''19.99''),
      last_value = Some ''19.99'', enabled = True, created_at = 1000000\<rparr>"

definition registry :: state where
  "registry = snd (add_task False price_task (snd (add_task False test_task empty_core)))"

text \<open>A database that holds three events, not in the order of their timestamps.\<close>

definition history :: state where
  "history =
     empty_core\<lparr>db_events :=
       [new_event (calm\<lparr>time_event := 1, now_event := 1000000\<rparr>) ''price'' ''h0'' ''c1'' ''h1'',
        new_event (calm\<lparr>time_event := 3, now_event := 3000000\<rparr>) ''test_hn'' ''g0'' ''d1'' ''g1'',
        new_event (calm\<lparr>time_event := 2, now_event := 2000000\<rparr>) ''price'' ''h1'' ''c2'' ''h2'']\<rparr>"

section \<open>One check, case by case\<close>

text \<open>
  \<^verbatim>\<open>check_task\<close> run symbolically along each path of the source: the guard, a failed
  fetch, unchanged content, and a detected change that stops at the snapshot, at the
  task row, at the event, or goes through.
\<close>

lemma map_of_update: "map_of (AList.update k v al) = (map_of al)(k \<mapsto> v)"
  by (rule AList.update_conv')

lemma keys_update: "map_of al k = Some t \<Longrightarrow> map fst (AList.update k v al) = map fst al"
  by (simp add: AList.update_keys map_of_eq_None_iff [symmetric])

lemma check_task_absent:
  "map_of (tasks st) tid = None \<Longrightarrow> check_task H w tid st = (Returned None, st)"
  by (simp add: check_task_def)

lemma check_task_disabled:
  "map_of (tasks st) tid = Some t \<Longrightarrow> \<not> enabled t \<Longrightarrow> check_task H w tid st = (Returned None, st)"
  by (simp add: check_task_def)

lemma check_task_fetch_fails:
  "map_of (tasks st) tid = Some t \<Longrightarrow> enabled t \<Longrightarrow> fetch w = Inl e \<Longrightarrow>
   check_task H w tid st =
     (Returned None,
      st\<lparr>requests_log := requests_log st @ [url t],
         console := console st @ [ErrorChecking tid e]\<rparr>)"
  by (simp add: check_task_def check_task_try_def)

lemma check_task_same:
  "map_of (tasks st) tid = Some t \<Longrightarrow> enabled t \<Longrightarrow> fetch w = Inr c \<Longrightarrow>
   \<not> hash_differs H t c \<Longrightarrow>
   check_task H w tid st =
     (Returned None,
      if task_update_fails w
      then st\<lparr>requests_log := requests_log st @ [url t],
              tasks := AList.update tid (t\<lparr>last_check := Some (now_last_check w)\<rparr>) (tasks st),
              console := console st @ [ErrorChecking tid OperationalError]\<rparr>
      else st\<lparr>requests_log := requests_log st @ [url t],
              tasks := AList.update tid (t\<lparr>last_check := Some (now_last_check w)\<rparr>) (tasks st),
              db_tasks := updated_rows (t\<lparr>last_check := Some (now_last_check w)\<rparr>) (db_tasks st)\<rparr>)"
  by (simp add: check_task_def check_task_try_def update_task_in_db_def Let_def)

lemma check_task_snapshot_fails:
  "map_of (tasks st) tid = Some t \<Longrightarrow> enabled t \<Longrightarrow> fetch w = Inr c \<Longrightarrow>
   hash_differs H t c \<Longrightarrow> \<not> snapshot_saves w tid st \<Longrightarrow>
   check_task H w tid st =
     (Returned None,
      if write_text_fails w
      then st\<lparr>requests_log := requests_log st @ [url t],
              console := console st @ [ErrorChecking tid OSError]\<rparr>
      else st\<lparr>requests_log := requests_log st @ [url t],
              files := AList.update (snapshot_path_of w tid) c (files st),
              console := console st @
                [ErrorChecking tid
                  (if snapshot_insert_fails w then OperationalError else IntegrityError)]\<rparr>)"
  by (cases "write_text_fails w"; cases "snapshot_insert_fails w")
     (simp_all add: check_task_def check_task_try_def save_snapshot_def snapshot_saves_def Let_def)

lemma check_task_update_fails:
  "map_of (tasks st) tid = Some t \<Longrightarrow> enabled t \<Longrightarrow> fetch w = Inr c \<Longrightarrow>
   hash_differs H t c \<Longrightarrow> snapshot_saves w tid st \<Longrightarrow> task_update_fails w \<Longrightarrow>
   check_task H w tid st =
     (Returned None,
      st\<lparr>requests_log := requests_log st @ [url t],
         files := AList.update (snapshot_path_of w tid) c (files st),
         db_snapshots := db_snapshots st @ [snapshot_row w tid (H c)],
         tasks := AList.update tid
           (t\<lparr>last_content_hash := Some (H c), last_check := Some (now_last_check w)\<rparr>) (tasks st),
         console := console st @ [ErrorChecking tid OperationalError]\<rparr>)"
  by (simp add: check_task_def check_task_try_def save_snapshot_def snapshot_saves_def
      update_task_in_db_def Let_def)

lemma check_task_event_fails:
  "map_of (tasks st) tid = Some t \<Longrightarrow> enabled t \<Longrightarrow> fetch w = Inr c \<Longrightarrow>
   hash_differs H t c \<Longrightarrow> snapshot_saves w tid st \<Longrightarrow> \<not> task_update_fails w \<Longrightarrow>
   \<not> event_saves w tid st \<Longrightarrow>
   check_task H w tid st =
     (Returned None,
      st\<lparr>requests_log := requests_log st @ [url t],
         files := AList.update (snapshot_path_of w tid) c (files st),
         db_snapshots := db_snapshots st @ [snapshot_row w tid (H c)],
         tasks := AList.update tid
           (t\<lparr>last_content_hash := Some (H c), last_check := Some (now_last_check w)\<rparr>) (tasks st),
         db_tasks := updated_rows
           (t\<lparr>last_content_hash := Some (H c), last_check := Some (now_last_check w)\<rparr>) (db_tasks st),
         console := console st @
           [ErrorChecking tid
             (if event_insert_fails w then OperationalError else IntegrityError)]\<rparr>)"
  by (cases "event_insert_fails w")
     (simp_all add: check_task_def check_task_try_def save_snapshot_def snapshot_saves_def
      update_task_in_db_def save_event_def event_saves_def new_event_def Let_def)

lemma check_task_changed:
  "map_of (tasks st) tid = Some t \<Longrightarrow> enabled t \<Longrightarrow> fetch w = Inr c \<Longrightarrow>
   hash_differs H t c \<Longrightarrow> snapshot_saves w tid st \<Longrightarrow> \<not> task_update_fails w \<Longrightarrow>
   event_saves w tid st \<Longrightarrow>
   check_task H w tid st =
     (Returned (Some (new_event w tid (the (last_content_hash t)) c (H c))),
      st\<lparr>requests_log := requests_log st @ [url t],
         files := AList.update (snapshot_path_of w tid) c (files st),
         db_snapshots := db_snapshots st @ [snapshot_row w tid (H c)],
         tasks := AList.update tid
           (t\<lparr>last_content_hash := Some (H c), last_check := Some (now_last_check w)\<rparr>) (tasks st),
         db_tasks := updated_rows
           (t\<lparr>last_content_hash := Some (H c), last_check := Some (now_last_check w)\<rparr>) (db_tasks st),
         db_events := db_events st @ [new_event w tid (the (last_content_hash t)) c (H c)]\<rparr>)"
  by (simp add: check_task_def check_task_try_def save_snapshot_def snapshot_saves_def
      update_task_in_db_def save_event_def event_saves_def new_event_def Let_def)


lemma check_task_cases [case_names absent disabled fetch_fails same snapshot_fails
    update_fails event_fails changed]:
  obtains
    (absent) "map_of (tasks st) tid = None"
  | (disabled) t where "map_of (tasks st) tid = Some t" "\<not> enabled t"
  | (fetch_fails) t e where "map_of (tasks st) tid = Some t" "enabled t" "fetch w = Inl e"
  | (same) t c where "map_of (tasks st) tid = Some t" "enabled t" "fetch w = Inr c"
      "\<not> hash_differs H t c"
  | (snapshot_fails) t c where "map_of (tasks st) tid = Some t" "enabled t" "fetch w = Inr c"
      "hash_differs H t c" "\<not> snapshot_saves w tid st"
  | (update_fails) t c where "map_of (tasks st) tid = Some t" "enabled t" "fetch w = Inr c"
      "hash_differs H t c" "snapshot_saves w tid st" "task_update_fails w"
  | (event_fails) t c where "map_of (tasks st) tid = Some t" "enabled t" "fetch w = Inr c"
      "hash_differs H t c" "snapshot_saves w tid st" "\<not> task_update_fails w"
      "\<not> event_saves w tid st"
  | (changed) t c where "map_of (tasks st) tid = Some t" "enabled t" "fetch w = Inr c"
      "hash_differs H t c" "snapshot_saves w tid st" "\<not> task_update_fails w"
      "event_saves w tid st"
proof (cases "map_of (tasks st) tid")
  case None
  then show ?thesis by (rule absent)
next
  case (Some t)
  show ?thesis
  proof (cases "fetch w")
    case (Inl e)
    with Some show ?thesis using disabled fetch_fails by blast
  next
    case (Inr c)
    with Some show ?thesis
      using disabled same snapshot_fails update_fails event_fails changed by blast
  qed
qed







section \<open>Errors\<close>




section \<open>The task after a check\<close>

lemmas run_defs = check_task_def check_task_try_def save_snapshot_def update_task_in_db_def
  save_event_def new_event_def snapshot_row_def updated_rows_def snapshot_id_of_def
  snapshot_path_of_def event_id_of_def hash_differs_def truthy_def DATA_DIR_def str_int_def
  str_nat.simps digit_def digest_def test_task_def price_task_def calm_def Let_def

lemma registry_eq:
  "registry =
     \<lparr>tasks = [(''test_hn'', test_task), (''price'', price_task)],
      db_tasks = [test_task,
        price_task\<lparr>last_check := None, last_content_hash := None, last_value := None\<rparr>],
      db_events = [], db_snapshots = [], files = [], requests_log = [], console = []\<rparr>"
  by (simp add: registry_def add_task_def test_task_def price_task_def empty_core_def)

text \<open>
  Claim C10. \<^verbatim>\<open>check_task\<close> keeps the keys of the registry, leaves every task but the
  one checked as it was, and changes of that task at most \<^verbatim>\<open>last_check\<close> and
  \<^verbatim>\<open>last_content_hash\<close>: id, name, url, check type, selector, JSON path, interval, last
  value, enabled flag and creation time stay. For an id that is not in the registry, or a
  disabled task, it returns \<^verbatim>\<open>None\<close> and leaves the whole state as it was: no task
  changes, nothing is written, no request is made.
\<close>

theorem check_task_frame:
  "map fst (tasks (snd (check_task H w tid st))) = map fst (tasks st) \<and>
   (\<forall>k t. map_of (tasks st) k = Some t \<longrightarrow>
      (\<exists>t'. map_of (tasks (snd (check_task H w tid st))) k = Some t' \<and>
         id_task t' = id_task t \<and> name t' = name t \<and> url t' = url t \<and>
         check_type t' = check_type t \<and> selector t' = selector t \<and>
         json_path t' = json_path t \<and> check_interval t' = check_interval t \<and>
         last_value t' = last_value t \<and> enabled t' = enabled t \<and>
         created_at t' = created_at t \<and> (k \<noteq> tid \<longrightarrow> t' = t))) \<and>
   (map_of (tasks st) tid = None \<or> (\<exists>t. map_of (tasks st) tid = Some t \<and> \<not> enabled t) \<longrightarrow>
      check_task H w tid st = (Returned None, st))"
proof (cases rule: check_task_cases [where st = st and tid = tid and w = w and H = H])
  case absent
  then show ?thesis by (simp add: check_task_absent)
next
  case (disabled t)
  then show ?thesis by (simp add: check_task_disabled)
next
  case (fetch_fails t e)
  then show ?thesis by (simp add: check_task_fetch_fails)
next
  case (same t c)
  then show ?thesis by (simp add: check_task_same map_of_update keys_update)
next
  case (snapshot_fails t c)
  then show ?thesis by (simp add: check_task_snapshot_fails)
next
  case (update_fails t c)
  then show ?thesis by (simp add: check_task_update_fails map_of_update keys_update)
next
  case (event_fails t c)
  then show ?thesis by (simp add: check_task_event_fails map_of_update keys_update)
next
  case (changed t c)
  then show ?thesis by (simp add: check_task_changed map_of_update keys_update)
qed

text \<open>Claim C10 at the registry with both tasks: checking one leaves the other as it was.\<close>

theorem check_task_frame_witness:
  "map_of (tasks registry) ''price'' = Some price_task \<and>
   (\<exists>t'. map_of (tasks (snd (check_task digest calm ''test_hn'' registry))) ''price'' = Some t' \<and>
      id_task t' = id_task price_task \<and> name t' = name price_task \<and>
      url t' = url price_task \<and> check_type t' = check_type price_task \<and>
      selector t' = selector price_task \<and> json_path t' = json_path price_task \<and>
      check_interval t' = check_interval price_task \<and>
      last_value t' = last_value price_task \<and> enabled t' = enabled price_task \<and>
      created_at t' = created_at price_task \<and> ''price'' \<noteq> ''test_hn'' \<and> t' = price_task) \<and>
   map_of (tasks registry) ''nobody'' = None \<and>
   check_task digest calm ''nobody'' registry = (Returned None, registry)"
proof -
  have a: "map_of (tasks registry) ''price'' = Some price_task"
    by (simp add: registry_eq)
  have b: "map_of (tasks registry) ''nobody'' = None"
    by (simp add: registry_eq)
  have c: "''price'' \<noteq> ''test_hn''"
    by simp
  from check_task_frame [of digest calm "''test_hn''" registry] a c
  have "\<exists>t'. map_of (tasks (snd (check_task digest calm ''test_hn'' registry))) ''price'' = Some t' \<and>
      id_task t' = id_task price_task \<and> name t' = name price_task \<and>
      url t' = url price_task \<and> check_type t' = check_type price_task \<and>
      selector t' = selector price_task \<and> json_path t' = json_path price_task \<and>
      check_interval t' = check_interval price_task \<and>
      last_value t' = last_value price_task \<and> enabled t' = enabled price_task \<and>
      created_at t' = created_at price_task \<and> ''price'' \<noteq> ''test_hn'' \<and> t' = price_task"
    by blast
  moreover from check_task_frame [of digest calm "''nobody''" registry] b
  have "check_task digest calm ''nobody'' registry = (Returned None, registry)"
    by blast
  ultimately show ?thesis using a b by blast
qed

text \<open>
  A task that holds no hash (\<^verbatim>\<open>None\<close>, or the empty string) holds none after a check
  either, and the check returns no event: the only assignment to \<^verbatim>\<open>last_content_hash\<close>
  is on the branch that needs a hash to be there already.
\<close>

lemma hash_stays_unset:
  assumes "map_of (tasks st) tid = Some t" and "\<not> truthy (last_content_hash t)"
  shows "fst (check_task H w tid st) = Returned None \<and>
     map_option last_content_hash (map_of (tasks (snd (check_task H w tid st))) tid) =
       Some (last_content_hash t)"
proof (cases rule: check_task_cases [where st = st and tid = tid and w = w and H = H])
  case absent
  with assms show ?thesis by simp
next
  case (disabled t0)
  with assms show ?thesis by (simp add: check_task_disabled)
next
  case (fetch_fails t0 e)
  with assms show ?thesis by (simp add: check_task_fetch_fails)
next
  case (same t0 c)
  with assms show ?thesis by (simp add: check_task_same map_of_update)
next
  case (snapshot_fails t0 c)
  with assms show ?thesis by (simp add: hash_differs_def)
next
  case (update_fails t0 c)
  with assms show ?thesis by (simp add: hash_differs_def)
next
  case (event_fails t0 c)
  with assms show ?thesis by (simp add: hash_differs_def)
next
  case (changed t0 c)
  with assms show ?thesis by (simp add: hash_differs_def)
qed

text \<open>
  Claim C1, on the code. The script's own task, added to a fresh core and checked once
  with a page that is fetched and a database that works: no event is returned, which is
  the first half of the claim; but the task's \<^verbatim>\<open>last_content_hash\<close> is still \<^verbatim>\<open>None\<close>
  afterwards, in the registry and in the table. The \<^verbatim>\<open>else\<close> branch of line 215 serves
  both "same hash" and "no hash yet" and stores only \<^verbatim>\<open>last_check\<close>.
\<close>

theorem first_check_stores_no_hash:
  "check_task digest calm ''test_hn'' (snd (add_task False test_task empty_core)) =
     (Returned None,
      \<lparr>tasks = [(''test_hn'', test_task\<lparr>last_check := Some 2000003\<rparr>)],
       db_tasks = [test_task\<lparr>last_check := Some 2000003\<rparr>],
       db_events = [], db_snapshots = [], files = [],
       requests_log = [''https://news.ycombinator.com''], console = []\<rparr>) \<and>
   last_content_hash (test_task\<lparr>last_check := Some 2000003\<rparr>) = None"
  by (simp add: check_task_def check_task_try_def add_task_def test_task_def empty_core_def
      calm_def hash_differs_def truthy_def update_task_in_db_def updated_rows_def Let_def)

text \<open>
  Claim C2, as the code has it. Let \<open>t\<close> be the task before a check attempt and \<open>t'\<close> the
  task after it. If the fetch fails, \<open>t' = t\<close>: \<^verbatim>\<open>last_check\<close> is not set. If the fetch
  succeeds (and, where a change is detected, the snapshot is saved), \<^verbatim>\<open>last_check\<close> is
  the clock reading of the attempt. \<^verbatim>\<open>last_check\<close> is either what it was or that
  reading, so it does not decrease when the clock has not gone back behind it.
  \<^verbatim>\<open>last_content_hash\<close> changes only to the digest of content that was fetched, and
  \<^verbatim>\<open>last_value\<close> never changes.
\<close>

theorem last_check_after_a_check:
  assumes "map_of (tasks st) tid = Some t"
  shows "\<exists>t'. map_of (tasks (snd (check_task H w tid st))) tid = Some t' \<and>
     (isl (fetch w) \<longrightarrow> t' = t) \<and>
     (\<forall>c. enabled t \<and> fetch w = Inr c \<and> (hash_differs H t c \<longrightarrow> snapshot_saves w tid st) \<longrightarrow>
        last_check t' = Some (now_last_check w)) \<and>
     (last_check t' = last_check t \<or> last_check t' = Some (now_last_check w)) \<and>
     (last_check t \<le> Some (now_last_check w) \<longrightarrow> last_check t \<le> last_check t') \<and>
     (last_content_hash t' = last_content_hash t \<or>
        (\<exists>c. fetch w = Inr c \<and> last_content_hash t' = Some (H c))) \<and>
     last_value t' = last_value t"
proof (cases rule: check_task_cases [where st = st and tid = tid and w = w and H = H])
  case absent
  with assms show ?thesis by simp
next
  case (disabled t0)
  with assms show ?thesis by (simp add: check_task_disabled)
next
  case (fetch_fails t0 e)
  with assms show ?thesis by (simp add: check_task_fetch_fails)
next
  case (same t0 c)
  with assms show ?thesis by (simp add: check_task_same map_of_update)
next
  case (snapshot_fails t0 c)
  with assms show ?thesis by (simp add: check_task_snapshot_fails)
next
  case (update_fails t0 c)
  with assms show ?thesis by (simp add: check_task_update_fails map_of_update)
next
  case (event_fails t0 c)
  with assms show ?thesis by (simp add: check_task_event_fails map_of_update)
next
  case (changed t0 c)
  with assms show ?thesis by (simp add: check_task_changed map_of_update)
qed

text \<open>
  Claim C2 as stated fails: after a check attempt whose fetch fails, the task has no
  \<^verbatim>\<open>last_check\<close> yet.
\<close>

theorem failed_fetch_leaves_last_check_unset:
  "map_option last_check
     (map_of (tasks (snd (check_task digest (calm\<lparr>fetch := Inl RequestException\<rparr>) ''test_hn''
        registry))) ''test_hn'') = Some None"
  by (simp add: registry_eq run_defs)

text \<open>Claim C2, as the code has it, at the price task.\<close>

theorem last_check_after_a_check_witness:
  "map_of (tasks registry) ''price'' = Some price_task \<and>
   (\<exists>t'. map_of (tasks (snd (check_task digest calm ''price'' registry))) ''price'' = Some t' \<and>
      last_check price_task \<le> Some (now_last_check calm) \<and>
      last_check price_task \<le> last_check t' \<and>
      last_check t' = Some (now_last_check calm) \<and>
      last_value t' = last_value price_task)"
proof -
  have a: "map_of (tasks registry) ''price'' = Some price_task"
    by (simp add: registry_eq)
  have b: "last_check price_task \<le> Some (now_last_check calm)"
    by (simp add: price_task_def calm_def)
  have c: "enabled price_task \<and> fetch calm = Inr ''<html>v1</html>'' \<and>
      (hash_differs digest price_task ''<html>v1</html>'' \<longrightarrow> snapshot_saves calm ''price'' registry)"
    by (simp add: price_task_def calm_def snapshot_saves_def registry_eq)
  from last_check_after_a_check [OF a, of digest calm] b c show ?thesis
    using a by blast
qed

section \<open>When an event is emitted\<close>

text \<open>
  Claim C3, as the code has it. For an enabled task that holds a hash \<open>h\<close> and a check
  that fetches the content \<open>c\<close>: if \<open>h\<close> is not the empty string and the snapshot, the task
  row and the event are all written, the check returns an event, of type
  \<^verbatim>\<open>content_changed\<close>, exactly when the digest of \<open>c\<close> differs from \<open>h\<close>; if \<open>h\<close> is empty
  or one of the writes fails it returns no event; and when the digest of \<open>c\<close> is \<open>h\<close> it
  returns no event and the task still holds \<open>h\<close>. The check type plays no part.
\<close>

theorem content_changed_iff_hash_differs:
  assumes "map_of (tasks st) tid = Some t" and "enabled t"
    and "last_content_hash t = Some h" and "fetch w = Inr c"
  shows "(h \<noteq> [] \<and> snapshot_saves w tid st \<and> \<not> task_update_fails w \<and> event_saves w tid st \<longrightarrow>
       ((\<exists>ev. fst (check_task H w tid st) = Returned (Some ev) \<and>
              change_type ev = CONTENT_CHANGED) \<longleftrightarrow> H c \<noteq> h)) \<and>
     (h = [] \<or> \<not> snapshot_saves w tid st \<or> task_update_fails w \<or> \<not> event_saves w tid st \<longrightarrow>
       fst (check_task H w tid st) = Returned None) \<and>
     (H c = h \<longrightarrow>
       fst (check_task H w tid st) = Returned None \<and>
       map_option last_content_hash (map_of (tasks (snd (check_task H w tid st))) tid) =
         Some (Some h))"
proof (cases rule: check_task_cases [where st = st and tid = tid and w = w and H = H])
  case absent
  with assms show ?thesis by simp
next
  case (disabled t0)
  with assms show ?thesis by simp
next
  case (fetch_fails t0 e)
  with assms show ?thesis by simp
next
  case (same t0 c0)
  with assms show ?thesis
    by (auto simp add: check_task_same map_of_update hash_differs_def truthy_def)
next
  case (snapshot_fails t0 c0)
  with assms show ?thesis
    by (auto simp add: check_task_snapshot_fails hash_differs_def truthy_def)
next
  case (update_fails t0 c0)
  with assms show ?thesis
    by (auto simp add: check_task_update_fails hash_differs_def truthy_def)
next
  case (event_fails t0 c0)
  with assms show ?thesis
    by (auto simp add: check_task_event_fails hash_differs_def truthy_def)
next
  case (changed t0 c0)
  with assms show ?thesis
    by (auto simp add: check_task_changed hash_differs_def truthy_def new_event_def)
qed

text \<open>
  Claim C3 as stated fails twice: with the empty string as the stored hash, and with a
  task row that cannot be written, the new digest differs and no event is returned.
\<close>

theorem empty_hash_or_failed_write_emits_nothing:
  "last_content_hash (test_task\<lparr>last_content_hash := Some ''''\<rparr>) = Some '''' \<and>
   digest ''<html>v1</html>'' \<noteq> '''' \<and>
   fst (check_task digest calm ''test_hn''
     (snd (add_task False (test_task\<lparr>last_content_hash := Some ''''\<rparr>) empty_core))) =
     Returned None \<and>
   last_content_hash price_task = Some (digest ''19.99'') \<and>
   digest ''17.50'' \<noteq> digest ''19.99'' \<and>
   fst (check_task digest (calm\<lparr>fetch := Inr ''17.50'', task_update_fails := True\<rparr>) ''price''
     registry) = Returned None"
  by (simp add: registry_eq add_task_def empty_core_def run_defs)

text \<open>Claim C3, as the code has it, at the price task with a new and with the old page.\<close>

theorem content_changed_iff_hash_differs_witness:
  "map_of (tasks registry) ''price'' = Some price_task \<and> enabled price_task \<and>
   last_content_hash price_task = Some (digest ''19.99'') \<and>
   fetch (calm\<lparr>fetch := Inr ''17.50''\<rparr>) = Inr ''17.50'' \<and>
   digest ''19.99'' \<noteq> [] \<and> snapshot_saves (calm\<lparr>fetch := Inr ''17.50''\<rparr>) ''price'' registry \<and>
   \<not> task_update_fails (calm\<lparr>fetch := Inr ''17.50''\<rparr>) \<and>
   event_saves (calm\<lparr>fetch := Inr ''17.50''\<rparr>) ''price'' registry \<and>
   digest ''17.50'' \<noteq> digest ''19.99'' \<and>
   (\<exists>ev. fst (check_task digest (calm\<lparr>fetch := Inr ''17.50''\<rparr>) ''price'' registry) =
           Returned (Some ev) \<and> change_type ev = CONTENT_CHANGED) \<and>
   fetch (calm\<lparr>fetch := Inr ''19.99''\<rparr>) = Inr ''19.99'' \<and>
   fst (check_task digest (calm\<lparr>fetch := Inr ''19.99''\<rparr>) ''price'' registry) = Returned None \<and>
   map_option last_content_hash
     (map_of (tasks (snd (check_task digest (calm\<lparr>fetch := Inr ''19.99''\<rparr>) ''price'' registry)))
        ''price'') = Some (Some (digest ''19.99''))"
proof -
  have a: "map_of (tasks registry) ''price'' = Some price_task"
    by (simp add: registry_eq)
  have b: "enabled price_task" "last_content_hash price_task = Some (digest ''19.99'')"
    by (simp_all add: price_task_def)
  have c: "digest ''19.99'' \<noteq> []" "digest ''17.50'' \<noteq> digest ''19.99''"
    by (simp_all add: digest_def)
  have d: "snapshot_saves (calm\<lparr>fetch := Inr ''17.50''\<rparr>) ''price'' registry"
    "\<not> task_update_fails (calm\<lparr>fetch := Inr ''17.50''\<rparr>)"
    "event_saves (calm\<lparr>fetch := Inr ''17.50''\<rparr>) ''price'' registry"
    by (simp_all add: snapshot_saves_def event_saves_def calm_def registry_eq)
  have e: "fetch (calm\<lparr>fetch := Inr ''17.50''\<rparr>) = Inr ''17.50''"
    "fetch (calm\<lparr>fetch := Inr ''19.99''\<rparr>) = Inr ''19.99''"
    by simp_all
  from content_changed_iff_hash_differs [OF a b e(1), of digest] c d
  have "\<exists>ev. fst (check_task digest (calm\<lparr>fetch := Inr ''17.50''\<rparr>) ''price'' registry) =
           Returned (Some ev) \<and> change_type ev = CONTENT_CHANGED"
    by blast
  moreover from content_changed_iff_hash_differs [OF a b e(2), of digest]
  have "fst (check_task digest (calm\<lparr>fetch := Inr ''19.99''\<rparr>) ''price'' registry) = Returned None \<and>
   map_option last_content_hash
     (map_of (tasks (snd (check_task digest (calm\<lparr>fetch := Inr ''19.99''\<rparr>) ''price'' registry)))
        ''price'') = Some (Some (digest ''19.99''))"
    by blast
  ultimately show ?thesis using a b c d e by blast
qed







section \<open>Snapshots and the order of the writes\<close>

text \<open>
  Claim C6, as the code has it. A check adds a snapshot row only when it has detected a
  change (an enabled task, fetched content, a stored non-empty hash that differs), and
  then it is the row of the fetched content, with the content in its file. A check that
  returns an event has added that row. A check that detects no change (the same hash, no
  hash yet, a failed fetch, a task that is absent) adds no row and writes no file. But a
  check that has saved the snapshot and then fails to write the task row or the event
  returns no event, records none, and leaves the snapshot behind.
\<close>

theorem snapshot_only_on_detected_change:
  "(db_snapshots (snd (check_task H w tid st)) = db_snapshots st \<or>
    (\<exists>t c. map_of (tasks st) tid = Some t \<and> enabled t \<and> fetch w = Inr c \<and>
       hash_differs H t c \<and>
       db_snapshots (snd (check_task H w tid st)) =
         db_snapshots st @ [snapshot_row w tid (H c)] \<and>
       map_of (files (snd (check_task H w tid st))) (snapshot_path_of w tid) = Some c)) \<and>
   (\<forall>ev. fst (check_task H w tid st) = Returned (Some ev) \<longrightarrow>
      (\<exists>c. fetch w = Inr c \<and>
         db_snapshots (snd (check_task H w tid st)) =
           db_snapshots st @ [snapshot_row w tid (H c)])) \<and>
   ((\<forall>t c. map_of (tasks st) tid = Some t \<and> fetch w = Inr c \<longrightarrow> \<not> hash_differs H t c) \<longrightarrow>
      db_snapshots (snd (check_task H w tid st)) = db_snapshots st \<and>
      files (snd (check_task H w tid st)) = files st) \<and>
   (\<forall>t c. map_of (tasks st) tid = Some t \<and> enabled t \<and> fetch w = Inr c \<and>
      hash_differs H t c \<and> snapshot_saves w tid st \<and>
      (task_update_fails w \<or> \<not> event_saves w tid st) \<longrightarrow>
      fst (check_task H w tid st) = Returned None \<and>
      db_events (snd (check_task H w tid st)) = db_events st \<and>
      db_snapshots (snd (check_task H w tid st)) =
        db_snapshots st @ [snapshot_row w tid (H c)])"
proof (cases rule: check_task_cases [where st = st and tid = tid and w = w and H = H])
  case absent
  then show ?thesis by (simp add: check_task_absent)
next
  case (disabled t)
  then show ?thesis by (simp add: check_task_disabled)
next
  case (fetch_fails t e)
  then show ?thesis by (simp add: check_task_fetch_fails)
next
  case (same t c)
  then show ?thesis by (simp add: check_task_same)
next
  case (snapshot_fails t c)
  then show ?thesis by (simp add: check_task_snapshot_fails)
next
  case (update_fails t c)
  then show ?thesis by (simp add: check_task_update_fails map_of_update)
next
  case (event_fails t c)
  then show ?thesis by (simp add: check_task_event_fails map_of_update)
next
  case (changed t c)
  then show ?thesis by (simp add: check_task_changed map_of_update)
qed

text \<open>
  Claim C6 as stated fails: when the task row cannot be written, the check emits no event
  and yet has created a snapshot row and its file.
\<close>

theorem snapshot_without_event:
  "db_snapshots registry = [] \<and> files registry = [] \<and>
   fst (check_task digest (calm\<lparr>fetch := Inr ''17.50'', task_update_fails := True\<rparr>) ''price''
     registry) = Returned None \<and>
   db_events (snd (check_task digest (calm\<lparr>fetch := Inr ''17.50'', task_update_fails := True\<rparr>)
     ''price'' registry)) = [] \<and>
   db_snapshots (snd (check_task digest (calm\<lparr>fetch := Inr ''17.50'', task_update_fails := True\<rparr>)
     ''price'' registry)) =
     [\<lparr>id_snapshot = ''snap_2_price'', snapshot_task_id = ''price'',
       snapshot_timestamp = 2000002, content_hash = ''H(17.50)'',
       content_path = ''~/.local/share/dataspy/snapshots/snap_2_price.html''\<rparr>] \<and>
   files (snd (check_task digest (calm\<lparr>fetch := Inr ''17.50'', task_update_fails := True\<rparr>)
     ''price'' registry)) =
     [(''~/.local/share/dataspy/snapshots/snap_2_price.html'', ''17.50'')]"
  by (simp add: registry_eq run_defs)

text \<open>
  Claim C6, as the code has it: a change that goes through, a first check, and a change
  whose event cannot be inserted.
\<close>

theorem snapshot_only_on_detected_change_witness:
  "fst (check_task digest (calm\<lparr>fetch := Inr ''17.50''\<rparr>) ''price'' registry) =
     Returned (Some (new_event (calm\<lparr>fetch := Inr ''17.50''\<rparr>) ''price'' (digest ''19.99'')
       ''17.50'' (digest ''17.50''))) \<and>
   (\<exists>c. fetch (calm\<lparr>fetch := Inr ''17.50''\<rparr>) = Inr c \<and>
      db_snapshots (snd (check_task digest (calm\<lparr>fetch := Inr ''17.50''\<rparr>) ''price'' registry)) =
        db_snapshots registry @ [snapshot_row (calm\<lparr>fetch := Inr ''17.50''\<rparr>) ''price'' (digest c)]) \<and>
   map_of (tasks registry) ''test_hn'' = Some test_task \<and>
   \<not> hash_differs digest test_task ''<html>v1</html>'' \<and>
   db_snapshots (snd (check_task digest calm ''test_hn'' registry)) = db_snapshots registry \<and>
   files (snd (check_task digest calm ''test_hn'' registry)) = files registry \<and>
   map_of (tasks registry) ''price'' = Some price_task \<and> enabled price_task \<and>
   fetch (calm\<lparr>fetch := Inr ''17.50'', event_insert_fails := True\<rparr>) = Inr ''17.50'' \<and>
   hash_differs digest price_task ''17.50'' \<and>
   snapshot_saves (calm\<lparr>fetch := Inr ''17.50'', event_insert_fails := True\<rparr>) ''price'' registry \<and>
   \<not> event_saves (calm\<lparr>fetch := Inr ''17.50'', event_insert_fails := True\<rparr>) ''price'' registry \<and>
   fst (check_task digest (calm\<lparr>fetch := Inr ''17.50'', event_insert_fails := True\<rparr>) ''price''
     registry) = Returned None \<and>
   db_events (snd (check_task digest (calm\<lparr>fetch := Inr ''17.50'', event_insert_fails := True\<rparr>)
     ''price'' registry)) = db_events registry \<and>
   db_snapshots (snd (check_task digest (calm\<lparr>fetch := Inr ''17.50'', event_insert_fails := True\<rparr>)
     ''price'' registry)) =
     db_snapshots registry @
       [snapshot_row (calm\<lparr>fetch := Inr ''17.50'', event_insert_fails := True\<rparr>) ''price''
          (digest ''17.50'')]"
proof -
  have a: "map_of (tasks registry) ''test_hn'' = Some test_task"
    "map_of (tasks registry) ''price'' = Some price_task"
    by (simp_all add: registry_eq)
  have b: "fst (check_task digest (calm\<lparr>fetch := Inr ''17.50''\<rparr>) ''price'' registry) =
     Returned (Some (new_event (calm\<lparr>fetch := Inr ''17.50''\<rparr>) ''price'' (digest ''19.99'')
       ''17.50'' (digest ''17.50'')))"
    by (simp add: registry_eq run_defs)
  have c: "\<not> hash_differs digest test_task ''<html>v1</html>''"
    "fetch calm = Inr ''<html>v1</html>''"
    by (simp_all add: hash_differs_def truthy_def test_task_def calm_def)
  have d: "enabled price_task"
    "fetch (calm\<lparr>fetch := Inr ''17.50'', event_insert_fails := True\<rparr>) = Inr ''17.50''"
    "hash_differs digest price_task ''17.50''"
    "snapshot_saves (calm\<lparr>fetch := Inr ''17.50'', event_insert_fails := True\<rparr>) ''price'' registry"
    "\<not> event_saves (calm\<lparr>fetch := Inr ''17.50'', event_insert_fails := True\<rparr>) ''price'' registry"
    by (simp_all add: price_task_def calm_def snapshot_saves_def event_saves_def registry_eq
        hash_differs_def truthy_def digest_def)
  note th1 = snapshot_only_on_detected_change [of digest "calm\<lparr>fetch := Inr ''17.50''\<rparr>"
      "''price''" registry]
  note th2 = snapshot_only_on_detected_change [of digest calm "''test_hn''" registry]
  note th3 = snapshot_only_on_detected_change [of digest
      "calm\<lparr>fetch := Inr ''17.50'', event_insert_fails := True\<rparr>" "''price''" registry]
  from th1 b have "\<exists>c. fetch (calm\<lparr>fetch := Inr ''17.50''\<rparr>) = Inr c \<and>
      db_snapshots (snd (check_task digest (calm\<lparr>fetch := Inr ''17.50''\<rparr>) ''price'' registry)) =
        db_snapshots registry @ [snapshot_row (calm\<lparr>fetch := Inr ''17.50''\<rparr>) ''price'' (digest c)]"
    by blast
  moreover from th2 a(1) c
  have "db_snapshots (snd (check_task digest calm ''test_hn'' registry)) = db_snapshots registry \<and>
    files (snd (check_task digest calm ''test_hn'' registry)) = files registry"
    by auto
  moreover from th3 a(2) d
  have "fst (check_task digest (calm\<lparr>fetch := Inr ''17.50'', event_insert_fails := True\<rparr>) ''price''
     registry) = Returned None \<and>
   db_events (snd (check_task digest (calm\<lparr>fetch := Inr ''17.50'', event_insert_fails := True\<rparr>)
     ''price'' registry)) = db_events registry \<and>
   db_snapshots (snd (check_task digest (calm\<lparr>fetch := Inr ''17.50'', event_insert_fails := True\<rparr>)
     ''price'' registry)) =
     db_snapshots registry @
       [snapshot_row (calm\<lparr>fetch := Inr ''17.50'', event_insert_fails := True\<rparr>) ''price''
          (digest ''17.50'')]"
    by blast
  ultimately show ?thesis using a b c d by blast
qed




section \<open>The event query\<close>

lemma order_by_timestamp_desc_sorted:
  "sorted_wrt (\<lambda>a b. timestamp b \<le> timestamp a) (order_by_timestamp_desc rows)"
proof -
  have "sorted (map (\<lambda>e. - timestamp e) (sort_key (\<lambda>e. - timestamp e) rows))"
    by (rule sorted_sort_key)
  then show ?thesis
    by (simp add: order_by_timestamp_desc_def sorted_map)
qed

lemma order_by_timestamp_desc_set [simp]:
  "set (order_by_timestamp_desc rows) = set rows"
  by (simp add: order_by_timestamp_desc_def)

lemma order_by_timestamp_desc_length [simp]:
  "length (order_by_timestamp_desc rows) = length rows"
  by (simp add: order_by_timestamp_desc_def)

lemma sql_limit_sorted:
  "sorted_wrt P rows \<Longrightarrow> sorted_wrt P (sql_limit n rows)"
  by (simp add: sql_limit_def)

lemma sql_limit_set: "set (sql_limit n rows) \<subseteq> set rows"
  by (auto simp add: sql_limit_def dest: in_set_takeD)

lemma sql_limit_length:
  "length (sql_limit n rows) = (if n < 0 then length rows else min (nat n) (length rows))"
  by (simp add: sql_limit_def min.commute)

lemma sql_limit_keeps_the_first:
  assumes "sorted_wrt P rows" and "x \<in> set (sql_limit n rows)" and "y \<in> set rows"
    and "y \<notin> set (sql_limit n rows)"
  shows "P x y"
proof (cases "n < 0")
  case True
  with assms show ?thesis by (simp add: sql_limit_def)
next
  case False
  with assms have x: "x \<in> set (take (nat n) rows)" and y: "y \<notin> set (take (nat n) rows)"
    by (simp_all add: sql_limit_def)
  have "set rows = set (take (nat n) rows) \<union> set (drop (nat n) rows)"
    by (metis append_take_drop_id set_append)
  with assms(3) y have "y \<in> set (drop (nat n) rows)"
    by blast
  moreover from assms(1) have "sorted_wrt P (take (nat n) rows @ drop (nat n) rows)"
    by simp
  then have "\<forall>a\<in>set (take (nat n) rows). \<forall>b\<in>set (drop (nat n) rows). P a b"
    by (simp only: sorted_wrt_append) blast
  ultimately show ?thesis using x by blast
qed

lemma get_events_rows:
  "get_events tid limit st = Returned evs \<Longrightarrow>
   evs = sql_limit limit (order_by_timestamp_desc
     (if truthy tid then filter (\<lambda>e. task_id e = the tid) (db_events st) else db_events st))"
  by (auto simp add: get_events_def split: if_splits)

lemma new_event_fields:
  "timestamp (new_event w tid old c h) = now_event w"
  "task_id (new_event w tid old c h) = tid"
  "change_type (new_event w tid old c h) = CONTENT_CHANGED"
  "id_event (new_event w tid old c h) = event_id_of w tid"
  by (simp_all add: new_event_def)

lemma history_rows:
  "db_events history =
     [new_event (calm\<lparr>time_event := 1, now_event := 1000000\<rparr>) ''price'' ''h0'' ''c1'' ''h1'',
      new_event (calm\<lparr>time_event := 3, now_event := 3000000\<rparr>) ''test_hn'' ''g0'' ''d1'' ''g1'',
      new_event (calm\<lparr>time_event := 2, now_event := 2000000\<rparr>) ''price'' ''h1'' ''c2'' ''h2'']"
  by (simp add: history_def empty_core_def)

text \<open>
  Claim C7, as the code has it. For a limit that fits SQLite's 64-bit integers
  \<^verbatim>\<open>get_events\<close> returns; what it returns are stored events, newest first. With a limit
  that is not negative there are at most that many, with a negative limit there is no
  bound. With a task id that is not the empty string they are events of that task, as
  many as the limit admits, and every event of the task that is left out is no newer
  than any that is returned; with no task id, or the empty string, the same holds of
  all events.
\<close>

theorem get_events_newest_first:
  "(- (2 ^ 63) \<le> limit \<and> limit < 2 ^ 63 \<longrightarrow> (\<exists>evs. get_events tid limit st = Returned evs)) \<and>
   (\<forall>evs. get_events tid limit st = Returned evs \<longrightarrow>
      sorted_wrt (\<lambda>a b. timestamp b \<le> timestamp a) evs \<and>
      set evs \<subseteq> set (db_events st) \<and>
      (0 \<le> limit \<longrightarrow> int (length evs) \<le> limit) \<and>
      (\<forall>t. tid = Some t \<and> t \<noteq> [] \<longrightarrow>
         (\<forall>e\<in>set evs. task_id e = t) \<and>
         length evs =
           (if limit < 0 then length (filter (\<lambda>e. task_id e = t) (db_events st))
            else min (nat limit) (length (filter (\<lambda>e. task_id e = t) (db_events st)))) \<and>
         (\<forall>e\<in>set (db_events st). task_id e = t \<and> e \<notin> set evs \<longrightarrow>
            (\<forall>e'\<in>set evs. timestamp e \<le> timestamp e'))) \<and>
      (tid = None \<or> tid = Some [] \<longrightarrow>
         length evs =
           (if limit < 0 then length (db_events st)
            else min (nat limit) (length (db_events st))) \<and>
         (\<forall>e\<in>set (db_events st). e \<notin> set evs \<longrightarrow>
            (\<forall>e'\<in>set evs. timestamp e \<le> timestamp e'))))"
proof (intro conjI allI impI)
  assume "- (2 ^ 63) \<le> limit \<and> limit < 2 ^ 63"
  then show "\<exists>evs. get_events tid limit st = Returned evs"
    by (simp add: get_events_def)
next
  fix evs
  assume "get_events tid limit st = Returned evs"
  note rows = get_events_rows [OF this]
  let ?sel = "if truthy tid then filter (\<lambda>e. task_id e = the tid) (db_events st) else db_events st"
  have sorted: "sorted_wrt (\<lambda>a b. timestamp b \<le> timestamp a) (order_by_timestamp_desc ?sel)"
    by (rule order_by_timestamp_desc_sorted)
  show "sorted_wrt (\<lambda>a b. timestamp b \<le> timestamp a) evs"
    unfolding rows using sorted by (rule sql_limit_sorted)
  have sub: "set evs \<subseteq> set ?sel"
    unfolding rows using sql_limit_set [of limit "order_by_timestamp_desc ?sel"] by simp
  then show "set evs \<subseteq> set (db_events st)"
    by (auto split: if_splits)
  have len: "length evs = (if limit < 0 then length ?sel else min (nat limit) (length ?sel))"
    unfolding rows by (simp add: sql_limit_length)
  { assume "0 \<le> limit"
    with len show "int (length evs) \<le> limit" by simp }
  have newest: "timestamp e \<le> timestamp e'"
    if "e \<in> set ?sel" "e \<notin> set evs" "e' \<in> set evs" for e e'
    using sql_limit_keeps_the_first [OF sorted, of e' limit e] that
    unfolding rows by simp
  { fix t
    assume t: "tid = Some t \<and> t \<noteq> []"
    then have sel: "?sel = filter (\<lambda>e. task_id e = t) (db_events st)"
      by (simp add: truthy_def)
    from sub sel show "\<forall>e\<in>set evs. task_id e = t" by auto
    from len sel show "length evs =
           (if limit < 0 then length (filter (\<lambda>e. task_id e = t) (db_events st))
            else min (nat limit) (length (filter (\<lambda>e. task_id e = t) (db_events st))))"
      by simp
    from newest sel show "\<forall>e\<in>set (db_events st). task_id e = t \<and> e \<notin> set evs \<longrightarrow>
            (\<forall>e'\<in>set evs. timestamp e \<le> timestamp e')"
      by auto }
  { assume "tid = None \<or> tid = Some []"
    then have sel: "?sel = db_events st"
      by (auto simp add: truthy_def)
    from len sel show "length evs =
           (if limit < 0 then length (db_events st)
            else min (nat limit) (length (db_events st)))"
      by simp
    from newest sel show "\<forall>e\<in>set (db_events st). e \<notin> set evs \<longrightarrow>
            (\<forall>e'\<in>set evs. timestamp e \<le> timestamp e')"
      by auto }
qed

text \<open>
  Claim C7 as stated fails twice on the database of three events: the empty string as
  task id selects events of every task, and the limit \<open>-1\<close> returns all three.
\<close>

theorem empty_task_id_and_negative_limit:
  "get_events (Some '''') 50 history =
     Returned
       [new_event (calm\<lparr>time_event := 3, now_event := 3000000\<rparr>) ''test_hn'' ''g0'' ''d1'' ''g1'',
        new_event (calm\<lparr>time_event := 2, now_event := 2000000\<rparr>) ''price'' ''h1'' ''c2'' ''h2'',
        new_event (calm\<lparr>time_event := 1, now_event := 1000000\<rparr>) ''price'' ''h0'' ''c1'' ''h1''] \<and>
   task_id (new_event (calm\<lparr>time_event := 3, now_event := 3000000\<rparr>) ''test_hn'' ''g0'' ''d1''
     ''g1'') \<noteq> '''' \<and>
   get_events None (- 1) history =
     Returned
       [new_event (calm\<lparr>time_event := 3, now_event := 3000000\<rparr>) ''test_hn'' ''g0'' ''d1'' ''g1'',
        new_event (calm\<lparr>time_event := 2, now_event := 2000000\<rparr>) ''price'' ''h1'' ''c2'' ''h2'',
        new_event (calm\<lparr>time_event := 1, now_event := 1000000\<rparr>) ''price'' ''h0'' ''c1'' ''h1''] \<and>
   \<not> int (length
       [new_event (calm\<lparr>time_event := 3, now_event := 3000000\<rparr>) ''test_hn'' ''g0'' ''d1'' ''g1'',
        new_event (calm\<lparr>time_event := 2, now_event := 2000000\<rparr>) ''price'' ''h1'' ''c2'' ''h2'',
        new_event (calm\<lparr>time_event := 1, now_event := 1000000\<rparr>) ''price'' ''h0'' ''c1'' ''h1''])
     \<le> - 1"
  by (simp add: get_events_def history_rows truthy_def sql_limit_def
      order_by_timestamp_desc_def new_event_fields)

text \<open>
  Claim C7, as the code has it: the newest event of the price task, with limit 1.
\<close>

theorem get_events_newest_first_witness:
  "(- (2 ^ 63) \<le> (1::int) \<and> (1::int) < 2 ^ 63) \<and>
   get_events (Some ''price'') 1 history =
     Returned [new_event (calm\<lparr>time_event := 2, now_event := 2000000\<rparr>) ''price'' ''h1'' ''c2'' ''h2''] \<and>
   sorted_wrt (\<lambda>a b. timestamp b \<le> timestamp a)
     [new_event (calm\<lparr>time_event := 2, now_event := 2000000\<rparr>) ''price'' ''h1'' ''c2'' ''h2''] \<and>
   (0 \<le> (1::int) \<and>
    int (length [new_event (calm\<lparr>time_event := 2, now_event := 2000000\<rparr>) ''price'' ''h1'' ''c2''
      ''h2'']) \<le> 1) \<and>
   ''price'' \<noteq> [] \<and>
   task_id (new_event (calm\<lparr>time_event := 2, now_event := 2000000\<rparr>) ''price'' ''h1'' ''c2'' ''h2'') =
     ''price'' \<and>
   new_event (calm\<lparr>time_event := 1, now_event := 1000000\<rparr>) ''price'' ''h0'' ''c1'' ''h1''
     \<in> set (db_events history) \<and>
   task_id (new_event (calm\<lparr>time_event := 1, now_event := 1000000\<rparr>) ''price'' ''h0'' ''c1'' ''h1'') =
     ''price'' \<and>
   new_event (calm\<lparr>time_event := 1, now_event := 1000000\<rparr>) ''price'' ''h0'' ''c1'' ''h1''
     \<notin> set [new_event (calm\<lparr>time_event := 2, now_event := 2000000\<rparr>) ''price'' ''h1'' ''c2'' ''h2''] \<and>
   timestamp (new_event (calm\<lparr>time_event := 1, now_event := 1000000\<rparr>) ''price'' ''h0'' ''c1'' ''h1'')
     \<le> timestamp (new_event (calm\<lparr>time_event := 2, now_event := 2000000\<rparr>) ''price'' ''h1'' ''c2''
       ''h2'')"
proof -
  define e1 where "e1 = new_event (calm\<lparr>time_event := 1, now_event := 1000000\<rparr>) ''price'' ''h0'' ''c1'' ''h1''"
  define e2 where "e2 = new_event (calm\<lparr>time_event := 2, now_event := 2000000\<rparr>) ''price'' ''h1'' ''c2'' ''h2''"
  define e3 where "e3 = new_event (calm\<lparr>time_event := 3, now_event := 3000000\<rparr>) ''test_hn'' ''g0'' ''d1'' ''g1''"
  have f: "timestamp e1 = 1000000" "timestamp e2 = 2000000" "timestamp e3 = 3000000"
    "task_id e1 = ''price''" "task_id e2 = ''price''" "task_id e3 = ''test_hn''"
    by (simp_all add: e1_def e2_def e3_def new_event_fields)
  have rows: "db_events history = [e1, e3, e2]"
    by (simp add: history_rows e1_def e2_def e3_def)
  have r: "get_events (Some ''price'') 1 history = Returned [e2]"
    by (simp add: get_events_def rows truthy_def sql_limit_def order_by_timestamp_desc_def f)
  have ne: "e1 \<noteq> e2"
    using f(1) f(2) by auto
  have a: "e1 \<in> set (db_events history)" "e1 \<notin> set [e2]" "''price'' \<noteq> []"
    using ne by (simp_all add: rows)
  note th = get_events_newest_first [of 1 "Some ''price''" history]
  from th r have s: "sorted_wrt (\<lambda>a b. timestamp b \<le> timestamp a) [e2]"
    and l: "(0::int) \<le> 1 \<longrightarrow> int (length [e2]) \<le> 1"
    by blast+
  from th r a(3) have n: "\<forall>e\<in>set (db_events history). task_id e = ''price'' \<and> e \<notin> set [e2] \<longrightarrow>
            (\<forall>e'\<in>set [e2]. timestamp e \<le> timestamp e')"
    by blast
  from n a f(4) have "timestamp e1 \<le> timestamp e2"
    by simp
  with r s l a f show ?thesis
    unfolding e1_def e2_def by simp
qed

section \<open>The schedule\<close>











end
